theory Spec2Isabelle
  imports Main
begin

section \<open>The selection state of the Home page\<close>

text \<open>
  The component \<^verbatim>\<open>Home\<close> of \<^verbatim>\<open>src/pages/Home.tsx\<close> owns two pieces of React state,
  \<^verbatim>\<open>selectedCharacterId : number | null\<close> and \<^verbatim>\<open>grayedOutCards : Set<number>\<close>, and reads
  the imported array \<^verbatim>\<open>characters\<close> (the file \<^verbatim>\<open>data/characters.json\<close>, whose entries carry
  the fields \<^verbatim>\<open>id\<close> and \<^verbatim>\<open>path\<close> used by the component). The content of the array is
  external data, so it is a field of the modelled world and every statement holds for any
  value of it.

  Identifiers are the integers of the catalog, modelled as \<^typ>\<open>int\<close>; \<^verbatim>\<open>null\<close> is
  \<^const>\<open>None\<close>. Each handler runs to completion and the component is rendered again before
  the next event, so a handler is a function from the world before the event to the world
  after it.
\<close>

record character =
  id_c :: int
  path :: string

record home =
  characters :: "character list"
  selectedCharacterId :: "int option"
  grayedOutCards :: "int set"

text \<open>The state of the first render: \<^verbatim>\<open>useState(null)\<close> and \<^verbatim>\<open>useState(new Set())\<close>.\<close>

definition initial :: "character list \<Rightarrow> home" where
  "initial cs = \<lparr>characters = cs, selectedCharacterId = None, grayedOutCards = {}\<rparr>"

text \<open>
  \<^verbatim>\<open>handleCharacterSelect\<close>: the first click sets the selected id; a later click on another
  id replaces the set by a copy in which that id is deleted when present and added when
  absent; a later click on the selected id does nothing. No branch throws.
\<close>

definition handleCharacterSelect :: "int \<Rightarrow> home \<Rightarrow> home" where
  "handleCharacterSelect i s =
     (if selectedCharacterId s = None then s\<lparr>selectedCharacterId := Some i\<rparr>
      else if Some i \<noteq> selectedCharacterId s then
        s\<lparr>grayedOutCards :=
            (let prev = grayedOutCards s
             in if i \<in> prev then prev - {i} else insert i prev)\<rparr>
      else s)"

text \<open>\<^verbatim>\<open>handleReset\<close>: both fields are set back, whatever they held.\<close>

definition handleReset :: "home \<Rightarrow> home" where
  "handleReset s = s\<lparr>selectedCharacterId := None, grayedOutCards := {}\<rparr>"

text \<open>
  The result of reading a JavaScript array: an index outside the array (negative or too
  large) yields \<^verbatim>\<open>undefined\<close>, which differs from \<^verbatim>\<open>null\<close>.
\<close>

datatype 'a js_value = Null | Undefined | Item 'a

definition array_get :: "'a list \<Rightarrow> int \<Rightarrow> 'a js_value" where
  "array_get xs i = (if 0 \<le> i \<and> i < int (length xs) then Item (xs ! nat i) else Undefined)"

text \<open>
  \<^verbatim>\<open>selectedCharacter\<close>: \<^verbatim>\<open>characters[selectedCharacterId]\<close> when an id is selected,
  \<^verbatim>\<open>null\<close> otherwise.
\<close>

definition selectedCharacter :: "home \<Rightarrow> character js_value" where
  "selectedCharacter s =
     (case selectedCharacterId s of None \<Rightarrow> Null | Some i \<Rightarrow> array_get (characters s) i)"

text \<open>
  The events the page delivers to the component, and the run of the component over a
  sequence of them, one handler after the other.
\<close>

datatype event = Select int | Reset

fun dispatch :: "home \<Rightarrow> event \<Rightarrow> home" where
  "dispatch s (Select i) = handleCharacterSelect i s"
| "dispatch s Reset = handleReset s"

definition run :: "home \<Rightarrow> event list \<Rightarrow> home" where
  "run s evs = foldl dispatch s evs"

text \<open>
  The condition on the catalog under which an id is a position: the entry at position
  \<open>i\<close> has id \<open>i\<close>.
\<close>

definition ids_match_positions :: "character list \<Rightarrow> bool" where
  "ids_match_positions cs = (map id_c cs = map int [0..<length cs])"

text \<open>
  The property that every run from the first render keeps: with nothing selected the set is
  empty, and a selected id is never in the set.
\<close>

definition consistent :: "home \<Rightarrow> bool" where
  "consistent s =
     (case selectedCharacterId s of
        None \<Rightarrow> grayedOutCards s = {}
      | Some l \<Rightarrow> l \<notin> grayedOutCards s)"

text \<open>
  The events the page can deliver. The grid renders one button for each entry of
  \<^verbatim>\<open>characters\<close>, whose click calls \<^verbatim>\<open>handleCharacterSelect(character.id)\<close>, and the reset
  button calls \<^verbatim>\<open>handleReset\<close>; there is no other call of either handler. (The page
  moreover shows the reset button only while an id is selected and disables the button of
  the selected card; both events are admitted here all the same.)
\<close>

fun on_page :: "character list \<Rightarrow> event \<Rightarrow> bool" where
  "on_page cs (Select i) = (i \<in> id_c ` set cs)"
| "on_page cs Reset = True"

text \<open>The selected id, when there is one, is the id of a catalog entry.\<close>

definition locked_in_catalog :: "home \<Rightarrow> bool" where
  "locked_in_catalog s =
     (case selectedCharacterId s of
        None \<Rightarrow> True
      | Some l \<Rightarrow> l \<in> id_c ` set (characters s))"

section \<open>Basic facts\<close>

lemma run_Nil: "run s [] = s"
  by (simp add: run_def)

lemma run_Cons: "run s (e # evs) = run (dispatch s e) evs"
  by (simp add: run_def)

lemma run_append: "run s (xs @ ys) = run (run s xs) ys"
  by (simp add: run_def)

lemma select_open:
  "selectedCharacterId s = None \<Longrightarrow> handleCharacterSelect i s = s\<lparr>selectedCharacterId := Some i\<rparr>"
  by (simp add: handleCharacterSelect_def)

lemma select_self: "selectedCharacterId s = Some l \<Longrightarrow> handleCharacterSelect l s = s"
  by (simp add: handleCharacterSelect_def)

lemma select_other_lock:
  "selectedCharacterId s = Some l \<Longrightarrow> selectedCharacterId (handleCharacterSelect i s) = Some l"
  by (simp add: handleCharacterSelect_def)

lemma select_other_member:
  assumes "selectedCharacterId s = Some l" and "y \<noteq> l"
  shows "y \<in> grayedOutCards (handleCharacterSelect y s) \<longleftrightarrow> y \<notin> grayedOutCards s"
  using assms by (simp add: handleCharacterSelect_def Let_def)

lemma selects_keep_lock:
  "selectedCharacterId s = Some l \<Longrightarrow> selectedCharacterId (run s (map Select ys)) = Some l"
proof (induction ys arbitrary: s)
  case Nil
  then show ?case by (simp add: run_Nil)
next
  case (Cons y ys)
  from Cons.prems have "selectedCharacterId (handleCharacterSelect y s) = Some l"
    by (rule select_other_lock)
  then show ?case by (simp add: run_Cons Cons.IH)
qed

lemma characters_select: "characters (handleCharacterSelect i s) = characters s"
  by (simp add: handleCharacterSelect_def)

lemma characters_reset: "characters (handleReset s) = characters s"
  by (simp add: handleReset_def)

lemma characters_dispatch: "characters (dispatch s e) = characters s"
  by (cases e) (simp_all add: characters_select characters_reset)

lemma characters_run: "characters (run s evs) = characters s"
  by (induction evs arbitrary: s) (simp_all add: run_Nil run_Cons characters_dispatch)

lemma consistent_initial: "consistent (initial cs)"
  by (simp add: consistent_def initial_def)

lemma consistent_select: "consistent s \<Longrightarrow> consistent (handleCharacterSelect i s)"
  by (auto simp: consistent_def handleCharacterSelect_def Let_def split: option.splits)

lemma consistent_reset: "consistent (handleReset s)"
  by (simp add: consistent_def handleReset_def)

lemma consistent_dispatch: "consistent s \<Longrightarrow> consistent (dispatch s e)"
  by (cases e) (simp_all add: consistent_select consistent_reset)

lemma consistent_run: "consistent s \<Longrightarrow> consistent (run s evs)"
  by (induction evs arbitrary: s) (simp_all add: run_Nil run_Cons consistent_dispatch)

lemma consistent_reachable: "consistent (run (initial cs) evs)"
  by (rule consistent_run) (rule consistent_initial)

section \<open>The first click locks\<close>

text \<open>
  C1. From the first render, after any non-empty sequence of clicks with no reset the
  selected id is the id of the first click, however long the sequence is; a click never
  leaves the selected id \<^verbatim>\<open>null\<close>, and the reset handler does.
\<close>

theorem first_select_locks:
  "selectedCharacterId (run (initial cs) (map Select (x # xs))) = Some x
   \<and> selectedCharacterId (handleCharacterSelect y s) \<noteq> None
   \<and> selectedCharacterId (handleReset s) = None"
proof -
  have "selectedCharacterId (handleCharacterSelect x (initial cs)) = Some x"
    by (simp add: handleCharacterSelect_def initial_def)
  then have "selectedCharacterId (run (handleCharacterSelect x (initial cs)) (map Select xs)) = Some x"
    by (rule selects_keep_lock)
  then have first: "selectedCharacterId (run (initial cs) (map Select (x # xs))) = Some x"
    by (simp add: run_Cons)
  have never: "selectedCharacterId (handleCharacterSelect y s) \<noteq> None"
    by (simp add: handleCharacterSelect_def)
  have reset: "selectedCharacterId (handleReset s) = None"
    by (simp add: handleReset_def)
  from first never reset show ?thesis by simp
qed

section \<open>The selected id is never grayed out\<close>

text \<open>
  C2. In every state reached from the first render by clicks and resets, the selected id
  is not in the set of grayed-out ids, and no further sequence of clicks puts it there.
\<close>

theorem lock_never_excluded:
  assumes "selectedCharacterId (run (initial cs) evs) = Some l"
  shows "l \<notin> grayedOutCards (run (initial cs) evs)
         \<and> l \<notin> grayedOutCards (run (run (initial cs) evs) (map Select ys))"
proof -
  let ?s = "run (initial cs) evs"
  have "consistent ?s" by (rule consistent_reachable)
  with assms have here: "l \<notin> grayedOutCards ?s"
    by (simp add: consistent_def)
  from assms have lock: "selectedCharacterId (run ?s (map Select ys)) = Some l"
    by (rule selects_keep_lock)
  have "consistent (run ?s (map Select ys))"
    by (rule consistent_run) (rule consistent_reachable)
  with lock have "l \<notin> grayedOutCards (run ?s (map Select ys))"
    by (simp add: consistent_def)
  with here show ?thesis by simp
qed

theorem lock_never_excluded_witness:
  "selectedCharacterId (run (initial []) [Select 5, Select 7, Select 5]) = Some 5
   \<and> 5 \<notin> grayedOutCards (run (initial []) [Select 5, Select 7, Select 5])
   \<and> 5 \<notin> grayedOutCards (run (run (initial []) [Select 5, Select 7, Select 5])
                              (map Select [5, 9, 5]))"
proof -
  have h: "selectedCharacterId (run (initial []) [Select 5, Select 7, Select 5]) = Some 5"
    by (simp add: run_def initial_def handleCharacterSelect_def)
  from h lock_never_excluded [OF h, of "[5, 9, 5]"] show ?thesis by simp
qed

section \<open>Clicking with nothing selected\<close>

text \<open>
  C3. In every state reached from the first render in which nothing is selected, a click
  on \<open>x\<close> gives the state in which \<open>x\<close> is selected and the set of grayed-out ids is empty.
\<close>

theorem select_from_open:
  assumes "selectedCharacterId (run (initial cs) evs) = None"
  shows "handleCharacterSelect x (run (initial cs) evs)
         = \<lparr>characters = cs, selectedCharacterId = Some x, grayedOutCards = {}\<rparr>"
proof -
  let ?s = "run (initial cs) evs"
  have "consistent ?s" by (rule consistent_reachable)
  with assms have empty: "grayedOutCards ?s = {}"
    by (simp add: consistent_def)
  have "characters ?s = cs"
    by (simp add: characters_run initial_def)
  with assms empty show ?thesis
    by (simp add: select_open)
qed

theorem select_from_open_witness:
  "selectedCharacterId (run (initial []) [Select 1, Select 2, Reset]) = None
   \<and> handleCharacterSelect 4 (run (initial []) [Select 1, Select 2, Reset])
     = \<lparr>characters = [], selectedCharacterId = Some 4, grayedOutCards = {}\<rparr>"
proof -
  have h: "selectedCharacterId (run (initial []) [Select 1, Select 2, Reset]) = None"
    by (simp add: run_def handleReset_def)
  from h select_from_open [OF h, of 4] show ?thesis by simp
qed

section \<open>Clicking another card toggles it\<close>

lemma select_keeps_others:
  "z \<noteq> y \<Longrightarrow> y \<in> grayedOutCards (handleCharacterSelect z s) \<longleftrightarrow> y \<in> grayedOutCards s"
  by (simp add: handleCharacterSelect_def Let_def)

text \<open>
  C4. With \<open>l\<close> selected and \<open>y\<close> another id, any sequence of clicks \<open>zs\<close> with no reset,
  on \<open>y\<close> and on whatever other ids, leaves \<open>l\<close> selected; the membership of \<open>y\<close> in the
  set of grayed-out ids is what it was when the number of clicks on \<open>y\<close> in the sequence is
  even and the opposite when it is odd.
\<close>

theorem select_other_toggles:
  assumes "selectedCharacterId s = Some l" and "y \<noteq> l"
  shows "selectedCharacterId (run s (map Select zs)) = Some l
         \<and> (y \<in> grayedOutCards (run s (map Select zs))
              \<longleftrightarrow> (if even (count_list zs y) then y \<in> grayedOutCards s
                   else y \<notin> grayedOutCards s))"
proof
  from assms(1) show "selectedCharacterId (run s (map Select zs)) = Some l"
    by (rule selects_keep_lock)
next
  from assms(1)
  show "y \<in> grayedOutCards (run s (map Select zs))
          \<longleftrightarrow> (if even (count_list zs y) then y \<in> grayedOutCards s
               else y \<notin> grayedOutCards s)"
  proof (induction zs arbitrary: s)
    case Nil
    show ?case by (simp add: run_Nil)
  next
    case (Cons z zs)
    let ?t = "handleCharacterSelect z s"
    from Cons.prems have lock: "selectedCharacterId ?t = Some l"
      by (rule select_other_lock)
    have rest: "y \<in> grayedOutCards (run ?t (map Select zs))
          \<longleftrightarrow> (if even (count_list zs y) then y \<in> grayedOutCards ?t
               else y \<notin> grayedOutCards ?t)"
      using lock by (rule Cons.IH)
    define r where "r = run s (map Select (z # zs))"
    have "r = run ?t (map Select zs)"
      by (simp add: r_def run_Cons)
    with rest have step: "y \<in> grayedOutCards r
          \<longleftrightarrow> (if even (count_list zs y) then y \<in> grayedOutCards ?t
               else y \<notin> grayedOutCards ?t)"
      by simp
    have "y \<in> grayedOutCards r
          \<longleftrightarrow> (if even (count_list (z # zs) y) then y \<in> grayedOutCards s
               else y \<notin> grayedOutCards s)"
    proof (cases "z = y")
      case True
      from Cons.prems assms(2)
      have "y \<in> grayedOutCards (handleCharacterSelect y s) \<longleftrightarrow> y \<notin> grayedOutCards s"
        by (rule select_other_member)
      with True step show ?thesis by auto
    next
      case False
      then have "y \<in> grayedOutCards ?t \<longleftrightarrow> y \<in> grayedOutCards s"
        by (rule select_keeps_others)
      with False step show ?thesis by auto
    qed
    then show ?case by (simp only: r_def)
  qed
qed

theorem select_other_toggles_witness:
  "selectedCharacterId \<lparr>characters = [], selectedCharacterId = Some 5, grayedOutCards = {}\<rparr> = Some 5
   \<and> (7::int) \<noteq> 5
   \<and> selectedCharacterId
        (run \<lparr>characters = [], selectedCharacterId = Some 5, grayedOutCards = {}\<rparr>
           (map Select [7, 8, 7])) = Some 5
   \<and> 7 \<notin> grayedOutCards
        (run \<lparr>characters = [], selectedCharacterId = Some 5, grayedOutCards = {}\<rparr>
           (map Select [7, 8, 7]))
   \<and> 7 \<in> grayedOutCards
        (run \<lparr>characters = [], selectedCharacterId = Some 5, grayedOutCards = {}\<rparr>
           (map Select [7, 8, 7, 5, 7]))"
  using select_other_toggles
    [of "\<lparr>characters = [], selectedCharacterId = Some 5, grayedOutCards = {}\<rparr>" 5 7 "[7, 8, 7]"]
    select_other_toggles
    [of "\<lparr>characters = [], selectedCharacterId = Some 5, grayedOutCards = {}\<rparr>" 5 7
        "[7, 8, 7, 5, 7]"]
  by simp

section \<open>Clicking the same card twice\<close>

text \<open>
  C5, as stated, fails: the catalog holds the ids 0 and 1, a first click has selected 0,
  and two clicks on 1 gray card 1 out and bring it back, while one click leaves it grayed
  out.
\<close>

theorem select_twice_differs:
  "1 \<in> set (map id_c [\<lparr>id_c = 0, path = ''a''\<rparr>, \<lparr>id_c = 1, path = ''b''\<rparr>])
   \<and> handleCharacterSelect 1 (handleCharacterSelect 1
        (run (initial [\<lparr>id_c = 0, path = ''a''\<rparr>, \<lparr>id_c = 1, path = ''b''\<rparr>]) [Select 0]))
     \<noteq> handleCharacterSelect 1
        (run (initial [\<lparr>id_c = 0, path = ''a''\<rparr>, \<lparr>id_c = 1, path = ''b''\<rparr>]) [Select 0])"
  by (simp add: run_def initial_def handleCharacterSelect_def)

text \<open>
  C5, amended. From a state in which nothing is selected or \<open>l\<close> is selected, two clicks
  on \<open>l\<close> give the state that one click gives; with \<open>l\<close> selected a click on \<open>l\<close> changes
  nothing.
\<close>

theorem select_twice_same:
  assumes "selectedCharacterId s = None \<or> selectedCharacterId s = Some l"
  shows "handleCharacterSelect l (handleCharacterSelect l s) = handleCharacterSelect l s
         \<and> (selectedCharacterId s = Some l \<longrightarrow> handleCharacterSelect l s = s)"
  using assms by (auto simp: handleCharacterSelect_def)

theorem select_twice_same_witness:
  "(selectedCharacterId (initial []) = None \<or> selectedCharacterId (initial []) = Some 3)
   \<and> handleCharacterSelect 3 (handleCharacterSelect 3 (initial []))
       = handleCharacterSelect 3 (initial [])
   \<and> selectedCharacterId (handleCharacterSelect 3 (initial [])) = Some 3
   \<and> handleCharacterSelect 3 (handleCharacterSelect 3 (initial []))
       = \<lparr>characters = [], selectedCharacterId = Some 3, grayedOutCards = {}\<rparr>"
proof -
  have h: "selectedCharacterId (initial []) = None \<or> selectedCharacterId (initial []) = Some 3"
    by (simp add: initial_def)
  have locked: "selectedCharacterId (handleCharacterSelect 3 (initial [])) = None
      \<or> selectedCharacterId (handleCharacterSelect 3 (initial [])) = Some 3"
    by (simp add: initial_def handleCharacterSelect_def)
  from h locked select_twice_same [OF h] select_twice_same [OF locked]
  show ?thesis by (simp add: initial_def handleCharacterSelect_def)
qed

section \<open>Reset\<close>

text \<open>
  C6. From any state the reset handler gives the state with nothing selected and an empty
  set of grayed-out ids, which is the state of the first render; a second reset changes
  nothing. The handler has no failing branch.
\<close>

theorem reset_total:
  "selectedCharacterId (handleReset s) = None
   \<and> grayedOutCards (handleReset s) = {}
   \<and> handleReset s = initial (characters s)
   \<and> handleReset (handleReset s) = handleReset s"
  by (simp add: handleReset_def initial_def)

section \<open>The displayed character\<close>

lemma ids_match_nth:
  assumes "ids_match_positions cs" and "i < length cs"
  shows "id_c (cs ! i) = int i"
proof -
  from assms(2) have "id_c (cs ! i) = map id_c cs ! i" by simp
  also from assms(1) have "\<dots> = map int [0..<length cs] ! i"
    by (simp add: ids_match_positions_def)
  also from assms(2) have "\<dots> = int i" by simp
  finally show ?thesis .
qed

lemma ids_match_set:
  assumes "ids_match_positions cs"
  shows "l \<in> id_c ` set cs \<longleftrightarrow> 0 \<le> l \<and> l < int (length cs)"
proof -
  from assms have "set (map id_c cs) = set (map int [0..<length cs])"
    by (simp only: ids_match_positions_def)
  then have "id_c ` set cs = int ` {0..<length cs}" by simp
  moreover have "l \<in> int ` {0..<length cs} \<longleftrightarrow> 0 \<le> l \<and> l < int (length cs)"
  proof
    assume "l \<in> int ` {0..<length cs}"
    then show "0 \<le> l \<and> l < int (length cs)" by auto
  next
    assume "0 \<le> l \<and> l < int (length cs)"
    then have "nat l \<in> {0..<length cs}" and "l = int (nat l)" by auto
    then show "l \<in> int ` {0..<length cs}" by (rule_tac image_eqI)
  qed
  ultimately show ?thesis by simp
qed

lemma locked_in_catalog_initial: "locked_in_catalog (initial cs)"
  by (simp add: locked_in_catalog_def initial_def)

lemma locked_in_catalog_dispatch:
  assumes "locked_in_catalog s" and "on_page (characters s) e"
  shows "locked_in_catalog (dispatch s e)"
proof (cases e)
  case (Select i)
  with assms show ?thesis
    by (auto simp: locked_in_catalog_def handleCharacterSelect_def Let_def
          split: option.splits)
next
  case Reset
  then show ?thesis by (simp add: locked_in_catalog_def handleReset_def)
qed

lemma locked_in_catalog_run:
  "locked_in_catalog s \<Longrightarrow> list_all (on_page (characters s)) evs \<Longrightarrow>
     locked_in_catalog (run s evs)"
proof (induction evs arbitrary: s)
  case Nil
  then show ?case by (simp add: run_Nil)
next
  case (Cons e evs)
  from Cons.prems have "locked_in_catalog (dispatch s e)"
    by (simp add: locked_in_catalog_dispatch)
  moreover from Cons.prems have "list_all (on_page (characters (dispatch s e))) evs"
    by (simp add: characters_dispatch)
  ultimately have "locked_in_catalog (run (dispatch s e) evs)" by (rule Cons.IH)
  then show ?case by (simp add: run_Cons)
qed

text \<open>
  C7. In a catalog whose entry at position \<open>i\<close> has id \<open>i\<close>, after any sequence of events
  that the page can deliver from the first render: with nothing selected the displayed
  character is \<^verbatim>\<open>null\<close>; with \<open>l\<close> selected it is the entry at position \<open>l\<close>, which is a
  member of the catalog and has the id \<open>l\<close>.
\<close>

theorem selectedCharacter_on_page:
  assumes "ids_match_positions cs" and "list_all (on_page cs) evs"
  shows "(selectedCharacterId (run (initial cs) evs) = None \<longrightarrow>
            selectedCharacter (run (initial cs) evs) = Null)
         \<and> (selectedCharacterId (run (initial cs) evs) = Some l \<longrightarrow>
              selectedCharacter (run (initial cs) evs) = Item (cs ! nat l)
              \<and> cs ! nat l \<in> set cs
              \<and> id_c (cs ! nat l) = l)"
proof (intro conjI impI)
  assume "selectedCharacterId (run (initial cs) evs) = None"
  then show "selectedCharacter (run (initial cs) evs) = Null"
    by (simp add: selectedCharacter_def)
next
  let ?s = "run (initial cs) evs"
  assume lock: "selectedCharacterId ?s = Some l"
  have cat: "characters ?s = cs"
    by (simp add: characters_run initial_def)
  from assms(2) have "list_all (on_page (characters (initial cs))) evs"
    by (simp add: initial_def)
  with locked_in_catalog_initial have "locked_in_catalog ?s"
    by (rule locked_in_catalog_run)
  with lock cat have "l \<in> id_c ` set cs"
    by (simp add: locked_in_catalog_def)
  with ids_match_set [OF assms(1), of l]
  have range: "0 \<le> l \<and> l < int (length cs)" by (rule_tac iffD1)
  then have pos: "nat l < length cs" by (simp add: nat_less_iff)
  from lock cat range show "selectedCharacter ?s = Item (cs ! nat l)"
    by (simp add: selectedCharacter_def array_get_def)
  from pos show "cs ! nat l \<in> set cs" by (rule nth_mem)
  from assms(1) pos have "id_c (cs ! nat l) = int (nat l)" by (rule ids_match_nth)
  with range show "id_c (cs ! nat l) = l" by simp
qed

theorem selectedCharacter_on_page_witness:
  "ids_match_positions [\<lparr>id_c = 0, path = ''a''\<rparr>, \<lparr>id_c = 1, path = ''b''\<rparr>]
   \<and> list_all (on_page [\<lparr>id_c = 0, path = ''a''\<rparr>, \<lparr>id_c = 1, path = ''b''\<rparr>])
       [Select 1, Select 0, Reset]
   \<and> list_all (on_page [\<lparr>id_c = 0, path = ''a''\<rparr>, \<lparr>id_c = 1, path = ''b''\<rparr>])
       [Select 1, Select 0]
   \<and> selectedCharacterId
       (run (initial [\<lparr>id_c = 0, path = ''a''\<rparr>, \<lparr>id_c = 1, path = ''b''\<rparr>])
          [Select 1, Select 0, Reset]) = None
   \<and> selectedCharacter
       (run (initial [\<lparr>id_c = 0, path = ''a''\<rparr>, \<lparr>id_c = 1, path = ''b''\<rparr>])
          [Select 1, Select 0, Reset]) = Null
   \<and> selectedCharacterId
       (run (initial [\<lparr>id_c = 0, path = ''a''\<rparr>, \<lparr>id_c = 1, path = ''b''\<rparr>])
          [Select 1, Select 0]) = Some 1
   \<and> selectedCharacter
       (run (initial [\<lparr>id_c = 0, path = ''a''\<rparr>, \<lparr>id_c = 1, path = ''b''\<rparr>])
          [Select 1, Select 0]) = Item \<lparr>id_c = 1, path = ''b''\<rparr>"
proof -
  let ?cs = "[\<lparr>id_c = 0, path = ''a''\<rparr>, \<lparr>id_c = 1, path = ''b''\<rparr>]"
  have h: "ids_match_positions ?cs"
    by (simp add: ids_match_positions_def upt_rec)
  have e0: "list_all (on_page ?cs) [Select 1, Select 0, Reset]" by simp
  have e1: "list_all (on_page ?cs) [Select 1, Select 0]" by simp
  have l0: "selectedCharacterId (run (initial ?cs) [Select 1, Select 0, Reset]) = None"
    by (simp add: run_def handleReset_def)
  have l1: "selectedCharacterId (run (initial ?cs) [Select 1, Select 0]) = Some 1"
    by (simp add: run_def initial_def handleCharacterSelect_def)
  from h e0 e1 l0 l1 selectedCharacter_on_page [OF h e0, of 0]
    selectedCharacter_on_page [OF h e1, of 1]
  show ?thesis by simp
qed

section \<open>Ids outside the catalog\<close>

text \<open>
  C8. The click handler never consults the catalog and has no failing branch. For an id
  \<open>x\<close> that no catalog item carries: with nothing selected, the click selects \<open>x\<close>; with
  another id selected and \<open>x\<close> not grayed out, the click puts \<open>x\<close> into the set of
  grayed-out ids; and the state after the click is the same whatever the catalog is.
\<close>

theorem select_unchecked:
  assumes "x \<notin> set (map id_c (characters s))"
  shows "(selectedCharacterId s = None \<longrightarrow>
            selectedCharacterId (handleCharacterSelect x s) = Some x)
         \<and> (selectedCharacterId s = Some l \<and> l \<noteq> x \<and> x \<notin> grayedOutCards s \<longrightarrow>
              x \<in> grayedOutCards (handleCharacterSelect x s))
         \<and> handleCharacterSelect x (s\<lparr>characters := cs'\<rparr>)
             = (handleCharacterSelect x s)\<lparr>characters := cs'\<rparr>"
  by (auto simp: handleCharacterSelect_def Let_def)

theorem select_unchecked_witness:
  "99 \<notin> set (map id_c [\<lparr>id_c = 0, path = ''a''\<rparr>])
   \<and> selectedCharacterId (handleCharacterSelect 99 (initial [\<lparr>id_c = 0, path = ''a''\<rparr>])) = Some 99
   \<and> 99 \<in> grayedOutCards (handleCharacterSelect 99
        \<lparr>characters = [\<lparr>id_c = 0, path = ''a''\<rparr>], selectedCharacterId = Some 0,
         grayedOutCards = {}\<rparr>)"
proof -
  let ?cs = "[\<lparr>id_c = 0, path = ''a''\<rparr>]"
  have h0: "99 \<notin> set (map id_c (characters (initial ?cs)))"
    by (simp add: initial_def)
  have h1: "99 \<notin> set (map id_c (characters
      \<lparr>characters = ?cs, selectedCharacterId = Some 0, grayedOutCards = {}\<rparr>))"
    by simp
  from select_unchecked [OF h0, of 0 "[]"] select_unchecked [OF h1, of 0 "[]"]
  show ?thesis by (simp add: initial_def)
qed

section \<open>Nothing selected, nothing grayed out\<close>

text \<open>
  C9. In every state reached from the first render by clicks and resets, if nothing is
  selected then the set of grayed-out ids is empty. The click handler itself does not
  empty the set when it selects: from any state with nothing selected it leaves the set as
  it was.
\<close>

theorem open_means_empty:
  "(selectedCharacterId (run (initial cs) evs) = None \<longrightarrow>
      grayedOutCards (run (initial cs) evs) = {})
   \<and> (selectedCharacterId s = None \<longrightarrow>
        grayedOutCards (handleCharacterSelect x s) = grayedOutCards s)"
proof (intro conjI impI)
  assume "selectedCharacterId (run (initial cs) evs) = None"
  moreover have "consistent (run (initial cs) evs)" by (rule consistent_reachable)
  ultimately show "grayedOutCards (run (initial cs) evs) = {}"
    by (simp add: consistent_def)
next
  assume "selectedCharacterId s = None"
  then show "grayedOutCards (handleCharacterSelect x s) = grayedOutCards s"
    by (simp add: select_open)
qed

theorem open_means_empty_witness:
  "selectedCharacterId (run (initial []) [Select 1, Select 2, Reset]) = None
   \<and> grayedOutCards (run (initial []) [Select 1, Select 2, Reset]) = {}
   \<and> selectedCharacterId \<lparr>characters = [], selectedCharacterId = None, grayedOutCards = {3}\<rparr> = None
   \<and> grayedOutCards (handleCharacterSelect 1
        \<lparr>characters = [], selectedCharacterId = None, grayedOutCards = {3}\<rparr>) = {3}"
proof -
  have h: "selectedCharacterId (run (initial []) [Select 1, Select 2, Reset]) = None"
    by (simp add: run_def handleReset_def)
  from h open_means_empty [of "[]" "[Select 1, Select 2, Reset]"
      "\<lparr>characters = [], selectedCharacterId = None, grayedOutCards = {3}\<rparr>" 1]
  show ?thesis by simp
qed

section \<open>The catalog is only read\<close>

text \<open>
  C10. Neither handler changes the catalog: after a click, after a reset and after any
  event the catalog is the one before, and the state after an event differs from the state
  before in the selected id and the set of grayed-out ids at most.
\<close>

theorem catalog_unchanged:
  "characters (handleCharacterSelect i s) = characters s
   \<and> characters (handleReset s) = characters s
   \<and> characters (dispatch s e) = characters s
   \<and> dispatch s e = s\<lparr>selectedCharacterId := selectedCharacterId (dispatch s e),
                       grayedOutCards := grayedOutCards (dispatch s e)\<rparr>"
proof -
  have "dispatch s e = s\<lparr>selectedCharacterId := selectedCharacterId (dispatch s e),
                          grayedOutCards := grayedOutCards (dispatch s e)\<rparr>"
    by (cases e) (simp_all add: handleCharacterSelect_def handleReset_def Let_def)
  then show ?thesis
    by (simp add: characters_select characters_reset characters_dispatch)
qed

end
